theory Spec2Isabelle
  imports Complex_Main "HOL-Library.Word" "HOL-Library.Sublist" "HOL-Library.Option_ord"
begin

section \<open>JavaScript values used by the quote exporter\<close>

text \<open>
  A JavaScript string is a sequence of 16-bit code units. Literals of the source that
  are plain ASCII are written through \<open>ascii\<close>; the accented letters of the Portuguese
  texts are given by their code unit.
\<close>

type_synonym unit16 = "16 word"
type_synonym jsstring = "unit16 list"

definition ascii :: "string \<Rightarrow> jsstring" where
  "ascii s = map (\<lambda>c. of_char c) s"

text \<open>
  A JavaScript number is modelled as an exact rational or \<open>NaN\<close>: the rounding of
  IEEE-754 doubles, the infinities and the negative zero are outside the model.
\<close>

datatype number = NaN | Fin rat

fun num_add :: "number \<Rightarrow> number \<Rightarrow> number" where
  "num_add (Fin a) (Fin b) = Fin (a + b)"
| "num_add _ _ = NaN"

fun num_mul :: "number \<Rightarrow> number \<Rightarrow> number" where
  "num_mul (Fin a) (Fin b) = Fin (a * b)"
| "num_mul _ _ = NaN"

text \<open>\<open>Math.max\<close> of two numbers: \<open>NaN\<close> if either is.\<close>

fun num_max :: "number \<Rightarrow> number \<Rightarrow> number" where
  "num_max (Fin a) (Fin b) = Fin (max a b)"
| "num_max _ _ = NaN"

text \<open>Truthiness of a number: \<open>0\<close> and \<open>NaN\<close> are falsy.\<close>

fun num_truthy :: "number \<Rightarrow> bool" where
  "num_truthy NaN = False"
| "num_truthy (Fin r) = (r \<noteq> 0)"

text \<open>
  An arbitrary value, as far as the source inspects one: \<open>typeof\<close> and truthiness.
  \<open>Object\<close> stands for any object that is not a function (an array, a date), none
  of which the source looks into.
\<close>

datatype jsval =
    Undefined
  | Null
  | Boolean bool
  | Number number
  | String jsstring
  | Object

fun truthy :: "jsval \<Rightarrow> bool" where
  "truthy Undefined = False"
| "truthy Null = False"
| "truthy (Boolean b) = b"
| "truthy (Number n) = num_truthy n"
| "truthy (String s) = (s \<noteq> [])"
| "truthy Object = True"

text \<open>The \<open>typeof\<close> operator (\<open>typeof null\<close> is \<open>'object'\<close>).\<close>

fun typeof :: "jsval \<Rightarrow> string" where
  "typeof Undefined = ''undefined''"
| "typeof Null = ''object''"
| "typeof (Boolean b) = ''boolean''"
| "typeof (Number n) = ''number''"
| "typeof (String s) = ''string''"
| "typeof Object = ''object''"

datatype error = TypeError | SecurityError | LibraryError

text \<open>\<open>url.startsWith('http')\<close>: calling the method on a value that has none throws.\<close>

fun startsWith :: "jsval \<Rightarrow> jsstring \<Rightarrow> error + bool" where
  "startsWith (String s) p = Inr (take (length p) s = p)"
| "startsWith Undefined p = Inl TypeError"
| "startsWith Null p = Inl TypeError"
| "startsWith _ p = Inl TypeError"


section \<open>The image resolver: \<open>getBase64ImageFromURL\<close>\<close>

text \<open>
  A promise is pending, fulfilled with a value, or rejected. \<open>resolve\<close> settles a
  pending promise and does nothing to a settled one, so the first call wins.
\<close>

datatype 'a promise = Pending | Fulfilled 'a | Rejected error

fun resolve :: "'a \<Rightarrow> 'a promise \<Rightarrow> 'a promise" where
  "resolve v Pending = Fulfilled v"
| "resolve v p = p"

text \<open>
  What the browser does with the canvas once the image has loaded: no 2D context,
  an exception while drawing or encoding (a tainted canvas, for instance), or the
  encoded image. \<open>toDataURL\<close> returns a \<open>data:\<close> URL; \<open>Encoded p\<close> carries what
  follows the scheme.
\<close>

datatype canvas_result = NoContext | CanvasThrows error | Encoded jsstring

text \<open>How the load attempt ends, if it ever does.\<close>

datatype img_event = OnLoad canvas_result | OnError

text \<open>The body of the \<open>try\<close> block of \<open>img.onload\<close>: the value it resolves with, or the exception.\<close>

fun onload_try :: "canvas_result \<Rightarrow> error + jsstring option" where
  "onload_try NoContext = Inr None"
| "onload_try (CanvasThrows e) = Inl e"
| "onload_try (Encoded p) = Inr (Some (ascii ''data:'' @ p))"

text \<open>\<open>img.onload\<close>, with its \<open>catch\<close>, and \<open>img.onerror\<close>.\<close>

definition onload :: "canvas_result \<Rightarrow> jsstring option promise \<Rightarrow> jsstring option promise" where
  "onload r p = (case onload_try r of Inl e \<Rightarrow> resolve None p | Inr v \<Rightarrow> resolve v p)"

definition onerror :: "jsstring option promise \<Rightarrow> jsstring option promise" where
  "onerror p = resolve None p"

text \<open>The callbacks the executor registers: the two image handlers and the timer.\<close>

datatype callback = ImageCallback img_event | TimerCallback

fun run_callback :: "callback \<Rightarrow> jsstring option promise \<Rightarrow> jsstring option promise" where
  "run_callback (ImageCallback (OnLoad r)) p = onload r p"
| "run_callback (ImageCallback OnError) p = onerror p"
| "run_callback TimerCallback p = resolve None p"

text \<open>The delay given to \<open>setTimeout\<close>, in milliseconds.\<close>

definition timeout_ms :: rat where
  "timeout_ms = 5000"

text \<open>
  The order in which the event loop runs the callbacks. The environment says when the
  load attempt ends (\<open>None\<close>: never), in milliseconds after the call; the timer fires
  at its delay. An image event at the very instant of the timer is taken to come second.
\<close>

definition schedule :: "(rat \<times> img_event) option \<Rightarrow> (rat \<times> callback) list" where
  "schedule ev =
     (case ev of
        None \<Rightarrow> [(timeout_ms, TimerCallback)]
      | Some (t, e) \<Rightarrow>
          if t < timeout_ms then [(t, ImageCallback e), (timeout_ms, TimerCallback)]
          else [(timeout_ms, TimerCallback), (t, ImageCallback e)])"

text \<open>
  The state of one call: whether \<open>img.src\<close> was assigned (the browser then starts the
  download), the promise, and the instant at which it settled.
\<close>

record resolution =
  requested :: bool
  settled_at :: "rat option"
  state :: "jsstring option promise"

definition fire :: "rat \<times> callback \<Rightarrow> resolution \<Rightarrow> resolution" where
  "fire tc r =
     (let p = run_callback (snd tc) (state r)
      in r\<lparr>state := p,
            settled_at := (if state r = Pending \<and> p \<noteq> Pending then Some (fst tc) else settled_at r)\<rparr>)"

fun fire_all :: "(rat \<times> callback) list \<Rightarrow> resolution \<Rightarrow> resolution" where
  "fire_all [] r = r"
| "fire_all (tc # tcs) r = fire_all tcs (fire tc r)"

text \<open>
  The guard of the executor, \<open>!url || typeof url !== 'string' || !url.startsWith('http')\<close>,
  evaluated left to right with short circuit.
\<close>

definition invalid_url :: "jsval \<Rightarrow> error + bool" where
  "invalid_url url =
     (if \<not> truthy url then Inr True
      else if typeof url \<noteq> ''string'' then Inr True
      else (case startsWith url (ascii ''http'') of Inl e \<Rightarrow> Inl e | Inr b \<Rightarrow> Inr (\<not> b)))"

text \<open>
  The executor runs synchronously inside \<open>new Promise\<close>; an exception it throws rejects
  the promise. Then the event loop runs the registered callbacks.
\<close>

definition getBase64ImageFromURL :: "(rat \<times> img_event) option \<Rightarrow> jsval \<Rightarrow> resolution" where
  "getBase64ImageFromURL ev url =
     (case invalid_url url of
        Inl e \<Rightarrow> \<lparr>requested = False, settled_at = Some 0, state = Rejected e\<rparr>
      | Inr True \<Rightarrow> \<lparr>requested = False, settled_at = Some 0, state = Fulfilled None\<rparr>
      | Inr False \<Rightarrow>
          fire_all (schedule ev) \<lparr>requested = True, settled_at = None, state = Pending\<rparr>)"


section \<open>The data model (\<open>types.ts\<close>)\<close>

text \<open>A catalog product, as \<open>types.ts\<close> declares it; the image is optional.\<close>

record Product =
  item_id :: number
  nome :: jsstring
  cm :: jsstring
  valor :: number
  imagem :: "jsstring option"

text \<open>
  A line item as \<open>generatePDF\<close> may meet it. The exporter tests every property it reads
  for truthiness, so each property is of its declared type or absent (\<open>None\<close>, the
  value \<open>undefined\<close>).
\<close>

record BudgetItem =
  item_id :: "number option"
  nome :: "jsstring option"
  cm :: "jsstring option"
  valor :: "number option"
  imagem :: "jsstring option"
  quantity :: "number option"
  item_total :: "number option"

record ClientInfo =
  name :: "jsstring option"
  phone :: "jsstring option"
  date :: "jsstring option"

text \<open>The value of an optional property.\<close>

fun num_val :: "number option \<Rightarrow> jsval" where
  "num_val None = Undefined"
| "num_val (Some n) = Number n"

fun str_val :: "jsstring option \<Rightarrow> jsval" where
  "str_val None = Undefined"
| "str_val (Some s) = String s"

text \<open>\<open>x || 0\<close> on a number property and \<open>s || d\<close> on a string property.\<close>

definition num_or :: "number option \<Rightarrow> number \<Rightarrow> number" where
  "num_or x d = (case x of Some n \<Rightarrow> if truthy (num_val x) then n else d | None \<Rightarrow> d)"

definition str_or :: "jsstring option \<Rightarrow> jsstring \<Rightarrow> jsstring" where
  "str_or x d = (case x of Some s \<Rightarrow> if truthy (str_val x) then s else d | None \<Rightarrow> d)"

text \<open>
  An element of the array handed to \<open>generatePDF\<close>: a line item, or any other value
  (\<open>null\<close>, a primitive, an object without the properties of a line item).
\<close>

datatype entry = Item BudgetItem | Other jsval

definition no_properties :: BudgetItem where
  "no_properties = \<lparr>item_id = None, nome = None, cm = None, valor = None, imagem = None,
     quantity = None, item_total = None\<rparr>"

text \<open>The filter \<open>item && typeof item === 'object'\<close>, and the element read as a line item.\<close>

fun is_valid_item :: "entry \<Rightarrow> bool" where
  "is_valid_item (Item it) = True"
| "is_valid_item (Other v) = (truthy v \<and> typeof v = ''object'')"

fun as_item :: "entry \<Rightarrow> BudgetItem" where
  "as_item (Item it) = it"
| "as_item (Other v) = no_properties"

text \<open>\<open>[...(items || [])].filter(...)\<close>; \<open>None\<close> is a \<open>null\<close> or \<open>undefined\<close> argument.\<close>

definition validItems :: "entry list option \<Rightarrow> BudgetItem list" where
  "validItems items =
     map as_item (filter is_valid_item (case items of None \<Rightarrow> [] | Some xs \<Rightarrow> xs))"


section \<open>The document composer: \<open>generatePDF\<close>\<close>

subsection \<open>Effects\<close>

text \<open>
  Displayed text is kept in pieces, so that the results of the platform's formatters stay
  symbolic: \<open>Currency n\<close> is \<open>Intl.NumberFormat('pt-BR', {style: 'currency', currency:
  'BRL'}).format(n)\<close>, \<open>NumToString n\<close> is \<open>n.toString()\<close>, and \<open>LocaleDate d\<close> is
  \<open>d.toLocaleDateString('pt-BR')\<close> for the date \<open>new Date(s)\<close> or \<open>new Date()\<close>.
\<close>

datatype jsdate = DateOf jsstring | DateNow

datatype piece = Lit jsstring | Currency number | NumToString number | LocaleDate jsdate

type_synonym content = "piece list"

datatype align = AlignLeft | AlignRight | AlignCenter

text \<open>
  What a run does to the outside: the notice, the requests the browser starts when
  \<open>img.src\<close> is assigned, the calls that put content into the document, and the
  download. Calls that only set a font, a size or a colour are left out. Of the calls
  into the PDF library, \<open>doc.addImage\<close> throws on image data that it cannot decode;
  the other calls are taken not to throw.
\<close>

datatype effect =
    Alert jsstring
  | NewDoc
  | LoadImage jsstring
  | AddImage jsstring rat rat rat rat
  | Text content rat rat align
  | Line rat rat rat rat
  | AutoTable "content list" "content list list"
  | AddPage
  | RoundedRect rat rat rat rat
  | Save jsstring

text \<open>An asynchronous function returns, throws, or waits for ever on a promise.\<close>

datatype 'a outcome = Returns 'a | Throws error | Blocks

subsection \<open>What the run does not decide\<close>

datatype table_section = Head | Body | Foot

text \<open>The cell that the table plugin passes to \<open>didDrawCell\<close>.\<close>

record cell_data =
  cell_section :: table_section
  column_index :: int
  row_index :: int
  cell_x :: rat
  cell_y :: rat
  cell_width :: rat
  cell_height :: rat

text \<open>
  The environment of one run: how the load of the image of the \<open>i\<close>-th valid item and
  of the logo ends; the cells for which the table plugin calls the draw hook, in its
  order; where the table ended (\<open>doc.lastAutoTable\<close>, which may be missing); and the
  height of the page.
\<close>

record env =
  item_image :: "nat \<Rightarrow> (rat \<times> img_event) option"
  logo_image :: "(rat \<times> img_event) option"
  drawn_cells :: "cell_data list"
  lastAutoTable :: "rat option"
  pageHeight :: rat

text \<open>
  The PDF library, as far as \<open>doc.addImage\<close> goes: the image data that it accepts. On
  any other data the call throws and draws nothing.
\<close>

type_synonym pdf_library = "jsstring \<Rightarrow> bool"

definition doc_addImage :: "pdf_library \<Rightarrow> jsstring \<Rightarrow> rat \<Rightarrow> rat \<Rightarrow> rat \<Rightarrow> rat \<Rightarrow> error + effect list" where
  "doc_addImage lib imageData x y w h =
     (if lib imageData then Inr [AddImage imageData x y w h] else Inl LibraryError)"

text \<open>A library that accepts every image.\<close>

definition accepts_all :: pdf_library where
  "accepts_all imageData = True"


subsection \<open>Total and image cache\<close>

definition totalPrice :: "BudgetItem list \<Rightarrow> number" where
  "totalPrice items =
     foldl (\<lambda>sum item. num_add sum (num_or (item_total item) (Fin 0))) (Fin 0) items"

text \<open>
  The cache \<open>imageCache\<close>: a property per identifier, holding the encoded image or
  \<open>null\<close> (\<open>Some None\<close>); \<open>None\<close> is a missing property.
\<close>

type_synonym image_cache = "number \<Rightarrow> jsstring option option"

text \<open>
  One task of the \<open>Promise.all\<close>: \<open>if (item && item.id && item.imagem)\<close> the resolver is
  called, and its result is stored under the identifier once it arrives.
\<close>

definition preload_item :: "(rat \<times> img_event) option \<Rightarrow> BudgetItem \<Rightarrow> (number \<times> jsstring \<times> resolution) list" where
  "preload_item ev item =
     (case (item_id item, imagem item) of
        (Some k, Some u) \<Rightarrow>
          if truthy (num_val (item_id item)) \<and> truthy (str_val (imagem item))
          then [(k, u, getBase64ImageFromURL ev (String u))]
          else []
      | _ \<Rightarrow> [])"

fun preload_from :: "nat \<Rightarrow> (nat \<Rightarrow> (rat \<times> img_event) option) \<Rightarrow> BudgetItem list \<Rightarrow> (number \<times> jsstring \<times> resolution) list" where
  "preload_from i evs [] = []"
| "preload_from i evs (item # items) = preload_item (evs i) item @ preload_from (Suc i) evs items"

text \<open>The requests started, in the order of the calls.\<close>

definition requests :: "(number \<times> jsstring \<times> resolution) list \<Rightarrow> effect list" where
  "requests loads = map (\<lambda>(k, u, r). LoadImage u) (filter (\<lambda>(k, u, r). requested r) loads)"

text \<open>
  The assignments \<open>imageCache[item.id] = ...\<close> run as the promises settle, so in the
  order of their instants (calls that settle at the same instant keep the order of the
  calls). A rejected task makes \<open>Promise.all\<close> throw; a task that never settles makes it
  wait for ever.
\<close>

definition settle_order :: "(number \<times> jsstring \<times> resolution) list \<Rightarrow> (number \<times> jsstring \<times> resolution) list" where
  "settle_order loads = sort_key (\<lambda>(k, u, r). settled_at r) loads"

fun store_all :: "(number \<times> jsstring \<times> resolution) list \<Rightarrow> image_cache \<Rightarrow> image_cache outcome" where
  "store_all [] cache = Returns cache"
| "store_all ((k, u, r) # rest) cache =
     (case state r of
        Fulfilled v \<Rightarrow> store_all rest (cache(k \<mapsto> v))
      | Rejected e \<Rightarrow> Throws e
      | Pending \<Rightarrow> (case store_all rest cache of Throws e \<Rightarrow> Throws e | _ \<Rightarrow> Blocks))"

definition await_all :: "(number \<times> jsstring \<times> resolution) list \<Rightarrow> image_cache outcome" where
  "await_all loads = store_all (settle_order loads) Map.empty"

subsection \<open>The draw hook of the table\<close>

text \<open>\<open>validItems[rowIndex]\<close>: an index outside the array reads \<open>undefined\<close>.\<close>

definition item_at :: "BudgetItem list \<Rightarrow> int \<Rightarrow> BudgetItem option" where
  "item_at items i = (if 0 \<le> i \<and> i < int (length items) then Some (items ! nat i) else None)"

text \<open>Reading \<open>.id\<close>: a \<open>TypeError\<close> on \<open>undefined\<close>.\<close>

fun read_id :: "BudgetItem option \<Rightarrow> error + number option" where
  "read_id None = Inl TypeError"
| "read_id (Some item) = Inr (item_id item)"

text \<open>\<open>imageCache[currentItem.id]\<close>: a missing property reads \<open>undefined\<close>, and so does any
  property when the identifier is.\<close>

fun cache_lookup :: "image_cache \<Rightarrow> number option \<Rightarrow> jsval" where
  "cache_lookup cache None = Undefined"
| "cache_lookup cache (Some k) =
     (case cache k of None \<Rightarrow> Undefined | Some None \<Rightarrow> Null | Some (Some b) \<Rightarrow> String b)"

definition imgSize :: rat where
  "imgSize = 18"

text \<open>
  \<open>didDrawCell\<close>. In \<open>currentItem && currentItem.id\<close> the property is read only when
  \<open>currentItem\<close> is an object. The call of \<open>doc.addImage\<close> is not inside a \<open>try\<close>, so
  its exception leaves the hook.
\<close>

definition didDrawCell :: "pdf_library \<Rightarrow> BudgetItem list \<Rightarrow> image_cache \<Rightarrow> cell_data \<Rightarrow> error + effect list" where
  "didDrawCell lib items imageCache data =
     (if cell_section data = Body \<and> column_index data = 0 then
        (let currentItem = item_at items (row_index data) in
         if currentItem = None then Inr []
         else
           (case read_id currentItem of
              Inl e \<Rightarrow> Inl e
            | Inr ident \<Rightarrow>
                if truthy (num_val ident) then
                  (case cache_lookup imageCache ident of
                     String base64 \<Rightarrow>
                       if truthy (String base64) then
                         doc_addImage lib base64
                           (cell_x data + (cell_width data - imgSize) / 2)
                           (cell_y data + (cell_height data - imgSize) / 2)
                           imgSize imgSize
                       else Inr []
                   | _ \<Rightarrow> Inr [])
                else Inr []))
      else Inr [])"

text \<open>The plugin calls the hook for one cell after the other; an exception ends the run.\<close>

fun draw_cells :: "pdf_library \<Rightarrow> BudgetItem list \<Rightarrow> image_cache \<Rightarrow> cell_data list \<Rightarrow> error + effect list" where
  "draw_cells lib items cache [] = Inr []"
| "draw_cells lib items cache (d # ds) =
     (case didDrawCell lib items cache d of
        Inl e \<Rightarrow> Inl e
      | Inr es \<Rightarrow> (case draw_cells lib items cache ds of Inl e \<Rightarrow> Inl e | Inr es' \<Rightarrow> Inr (es @ es')))"

subsection \<open>Header, table rows, footer and file name\<close>

definition logoUrl :: jsstring where
  "logoUrl = ascii ''https://i.postimg.cc/dts7TZmg/ARTBRASIL.png''"

text \<open>
  The logo: the \<open>await\<close> and the call of \<open>doc.addImage\<close> sit in a \<open>try\<close>, so a rejection
  and an exception of the library are swallowed; the image is added when the result is
  truthy.
\<close>

definition logo_effects :: "pdf_library \<Rightarrow> resolution \<Rightarrow> effect list outcome" where
  "logo_effects lib r =
     (case state r of
        Pending \<Rightarrow> Blocks
      | Rejected e \<Rightarrow> Returns []
      | Fulfilled base64Logo \<Rightarrow>
          Returns (if truthy (str_val base64Logo)
                   then (case base64Logo of
                           Some b \<Rightarrow> (case doc_addImage lib b 15 10 35 12 of Inl e \<Rightarrow> [] | Inr es \<Rightarrow> es)
                         | None \<Rightarrow> [])
                   else []))"

text \<open>\<open>client.date ? new Date(client.date + 'T12:00:00') : new Date()\<close>.\<close>

definition issue_date :: "ClientInfo \<Rightarrow> jsdate" where
  "issue_date client =
     (case date client of
        Some d \<Rightarrow> if truthy (str_val (date client)) then DateOf (d @ ascii ''T12:00:00'') else DateNow
      | None \<Rightarrow> DateNow)"

definition header :: "ClientInfo \<Rightarrow> effect list" where
  "header client =
     [Text [Lit (ascii ''OR'' @ [0xC7] @ ascii ''AMENTO'')] 195 20 AlignRight,
      Text [Lit (ascii ''Emiss'' @ [0xE3] @ ascii ''o: ''), LocaleDate (issue_date client)] 195 26 AlignRight,
      Line 15 35 195 35,
      Text [Lit (ascii ''DADOS DO CLIENTE:'')] 15 43 AlignLeft,
      Text [Lit (str_or (name client) (ascii ''Consumidor Final''))] 15 49 AlignLeft]
     @ (case phone client of
          Some p \<Rightarrow> if truthy (str_val (phone client))
                    then [Text [Lit (ascii ''Contato: '' @ p)] 15 55 AlignLeft] else []
        | None \<Rightarrow> [])"

definition tableHead :: "content list" where
  "tableHead = [[Lit (ascii ''FOTO'')], [Lit (ascii ''PRODUTO'')], [Lit (ascii ''TAM.'')],
     [Lit (ascii ''QTD'')], [Lit (ascii ''VALOR UN.'')], [Lit (ascii ''TOTAL'')]]"

definition tableRows :: "BudgetItem list \<Rightarrow> content list list" where
  "tableRows items =
     map (\<lambda>item.
       [[Lit []],
        [Lit (str_or (nome item) (ascii ''Produto''))],
        [Lit (str_or (cm item) (ascii ''0'') @ ascii '' cm'')],
        [NumToString (num_or (quantity item) (Fin 0))],
        [Currency (num_or (valor item) (Fin 0))],
        [Currency (num_or (item_total item) (Fin 0))]]) items"

text \<open>\<open>doc.lastAutoTable ? doc.lastAutoTable.finalY : 150\<close>.\<close>

definition finalY :: "env \<Rightarrow> rat" where
  "finalY e = (case lastAutoTable e of Some y \<Rightarrow> y | None \<Rightarrow> 150)"

text \<open>The footer: the page break when it does not fit, the summary box, the two notes.\<close>

definition footer :: "env \<Rightarrow> number \<Rightarrow> effect list" where
  "footer e price =
     (let footerY0 = finalY e + 10;
          break = (footerY0 + 40 > pageHeight e);
          footerY = (if break then 20 else footerY0)
      in (if break then [AddPage] else []) @
         [RoundedRect 130 footerY 65 15,
          Text [Lit (ascii ''VALOR TOTAL:'')] 135 (footerY + 9) AlignLeft,
          Text [Currency price] 190 (footerY + 9) AlignRight,
          Text [Lit (ascii ''Art Brasil Imagens - Devo'' @ [0xE7, 0xE3] @ ascii ''o em cada detalhe.'')]
            105 (footerY + 30) AlignCenter,
          Text [Lit (ascii ''Pre'' @ [0xE7] @ ascii ''os sujeitos a altera'' @ [0xE7, 0xE3]
                  @ ascii ''o sem aviso pr'' @ [0xE9] @ ascii ''vio. Or'' @ [0xE7]
                  @ ascii ''amento v'' @ [0xE1] @ ascii ''lido por 15 dias.'')]
            105 (footerY + 34) AlignCenter])"

text \<open>
  The class \<open>[^a-z0-9]\<close> under the flag \<open>i\<close> (without the flag \<open>u\<close> no code unit
  outside ASCII is folded to a letter): every code unit that is not an ASCII letter or
  digit.
\<close>

definition is_alnum :: "unit16 \<Rightarrow> bool" where
  "is_alnum c = ((0x30 \<le> c \<and> c \<le> 0x39) \<or> (0x41 \<le> c \<and> c \<le> 0x5A) \<or> (0x61 \<le> c \<and> c \<le> 0x7A))"

text \<open>\<open>.replace(/[^a-z0-9]/gi, '_')\<close>: every match is replaced by an underscore.\<close>

definition replace_non_alnum :: "jsstring \<Rightarrow> jsstring" where
  "replace_non_alnum s = map (\<lambda>c. if is_alnum c then c else 0x5F) s"

text \<open>\<open>s.substring(0, n)\<close>.\<close>

definition substring0 :: "jsstring \<Rightarrow> nat \<Rightarrow> jsstring" where
  "substring0 s n = take n s"

definition cleanClientName :: "ClientInfo \<Rightarrow> jsstring" where
  "cleanClientName client =
     substring0 (replace_non_alnum (str_or (name client) (ascii ''Cliente''))) 30"

definition fileName :: "ClientInfo \<Rightarrow> jsstring" where
  "fileName client = ascii ''Orcamento_'' @ cleanClientName client @ ascii ''.pdf''"

subsection \<open>The export\<close>

text \<open>
  The run of \<open>generatePDF\<close> is described for a PDF library that accepts every image; with
  another library an exception of the draw hook ends the run and reaches the caller.
\<close>

definition empty_notice :: jsstring where
  "empty_notice = ascii ''Adicione itens ao or'' @ [0xE7] @ ascii ''amento antes de exportar.''"

definition generatePDF :: "env \<Rightarrow> entry list option \<Rightarrow> ClientInfo \<Rightarrow> effect list outcome" where
  "generatePDF e items client =
     (let valid = validItems items in
      if length valid = 0 then Returns [Alert empty_notice]
      else
        (let price = totalPrice valid;
             loads = preload_from 0 (item_image e) valid
         in case await_all loads of
              Throws x \<Rightarrow> Throws x
            | Blocks \<Rightarrow> Blocks
            | Returns imageCache \<Rightarrow>
                (let logo = getBase64ImageFromURL (logo_image e) (String logoUrl)
                 in case logo_effects accepts_all logo of
                      Throws x \<Rightarrow> Throws x
                    | Blocks \<Rightarrow> Blocks
                    | Returns logo_drawn \<Rightarrow>
                        (case draw_cells accepts_all valid imageCache (drawn_cells e) of
                           Inl x \<Rightarrow> Throws x
                         | Inr thumbnails \<Rightarrow>
                             Returns (NewDoc # requests loads
                                      @ (if requested logo then [LoadImage logoUrl] else [])
                                      @ logo_drawn
                                      @ header client
                                      @ [AutoTable tableHead (tableRows valid)]
                                      @ thumbnails
                                      @ footer e price
                                      @ [Save (fileName client)])))))"


section \<open>A host whose local time is at a fixed offset from UTC\<close>

text \<open>
  What \<open>new Date(s)\<close> and \<open>toLocaleDateString('pt-BR')\<close> give on a host whose local time
  is \<open>tz\<close> minutes ahead of UTC all year (no daylight saving). Of the strings that \<open>Date\<close> accepts, the model covers
  the form \<open>YYYY-MM-DDTHH:mm:ss\<close>, which ECMAScript reads as local time; any other
  string counts as unparsable. Time values are milliseconds since the epoch.
\<close>

definition days_from_civil :: "int \<Rightarrow> int \<Rightarrow> int \<Rightarrow> int" where
  "days_from_civil y m d =
     (let y' = (if m \<le> 2 then y - 1 else y);
          era = y' div 400;
          yoe = y' - era * 400;
          mp = (m + 9) mod 12;
          doy = (153 * mp + 2) div 5 + d - 1;
          doe = yoe * 365 + yoe div 4 - yoe div 100 + doy
      in era * 146097 + doe - 719468)"

definition civil_from_days :: "int \<Rightarrow> int \<times> int \<times> int" where
  "civil_from_days z =
     (let z' = z + 719468;
          era = z' div 146097;
          doe = z' - era * 146097;
          yoe = (doe - doe div 1460 + doe div 36524 - doe div 146096) div 365;
          doy = doe - (365 * yoe + yoe div 4 - yoe div 100);
          mp = (5 * doy + 2) div 153;
          d = doy - (153 * mp + 2) div 5 + 1;
          m = (if mp < 10 then mp + 3 else mp - 9);
          y = yoe + era * 400
      in (if m \<le> 2 then y + 1 else y, m, d))"

definition digit_value :: "unit16 \<Rightarrow> int option" where
  "digit_value c = (if 0x30 \<le> c \<and> c \<le> 0x39 then Some (int (unat c) - 48) else None)"

fun digits_value :: "int \<Rightarrow> jsstring \<Rightarrow> int option" where
  "digits_value acc [] = Some acc"
| "digits_value acc (c # cs) =
     (case digit_value c of None \<Rightarrow> None | Some v \<Rightarrow> digits_value (acc * 10 + v) cs)"

definition field :: "jsstring \<Rightarrow> nat \<Rightarrow> nat \<Rightarrow> int option" where
  "field s from len = digits_value 0 (take len (drop from s))"

definition parse_local :: "jsstring \<Rightarrow> (int \<times> int \<times> int \<times> int \<times> int \<times> int) option" where
  "parse_local s =
     (if length s = 19 \<and> s ! 4 = 0x2D \<and> s ! 7 = 0x2D \<and> s ! 10 = 0x54 \<and> s ! 13 = 0x3A \<and> s ! 16 = 0x3A
      then
        (case (field s 0 4, field s 5 2, field s 8 2, field s 11 2, field s 14 2, field s 17 2) of
           (Some y, Some mo, Some d, Some h, Some mi, Some se) \<Rightarrow>
             if 1 \<le> mo \<and> mo \<le> 12 \<and> 1 \<le> d \<and> d \<le> 31 \<and> h \<le> 23 \<and> mi \<le> 59 \<and> se \<le> 59
             then Some (y, mo, d, h, mi, se) else None
         | _ \<Rightarrow> None)
      else None)"

text \<open>The time value of a date; \<open>None\<close> is the invalid date.\<close>

definition time_value :: "int \<Rightarrow> int \<Rightarrow> jsdate \<Rightarrow> int option" where
  "time_value tz now d =
     (case d of
        DateNow \<Rightarrow> Some now
      | DateOf s \<Rightarrow>
          (case parse_local s of
             None \<Rightarrow> None
           | Some (y, mo, dd, h, mi, se) \<Rightarrow>
               Some (days_from_civil y mo dd * 86400000 + h * 3600000 + mi * 60000 + se * 1000
                     - tz * 60000)))"

definition digit_unit :: "int \<Rightarrow> unit16" where
  "digit_unit n = of_int (48 + n)"

definition two_digits :: "int \<Rightarrow> jsstring" where
  "two_digits n = [digit_unit (n div 10), digit_unit (n mod 10)]"

function decimal :: "nat \<Rightarrow> jsstring" where
  "decimal n = (if n < 10 then [digit_unit (int n)] else decimal (n div 10) @ [digit_unit (int (n mod 10))])"
  by pat_completeness auto
termination
  by (relation "measure (\<lambda>n. n)") auto

text \<open>\<open>toLocaleDateString('pt-BR')\<close>: day, month and year of the local date.\<close>

definition toLocaleDateString :: "int \<Rightarrow> int option \<Rightarrow> jsstring" where
  "toLocaleDateString tz t =
     (case t of
        None \<Rightarrow> ascii ''Invalid Date''
      | Some ms \<Rightarrow>
          (case civil_from_days ((ms + tz * 60000) div 86400000) of
             (y, m, d) \<Rightarrow>
               two_digits d @ [0x2F] @ two_digits m @ [0x2F]
               @ (if y < 0 then [0x2D] @ decimal (nat (- y)) else decimal (nat y))))"

definition host_date_text :: "int \<Rightarrow> int \<Rightarrow> jsdate \<Rightarrow> jsstring" where
  "host_date_text tz now d = toLocaleDateString tz (time_value tz now d)"


section \<open>The cart (\<open>App.tsx\<close>)\<close>

text \<open>\<open>a === b\<close> on numbers: \<open>NaN\<close> equals nothing.\<close>

fun strict_eq :: "number \<Rightarrow> number \<Rightarrow> bool" where
  "strict_eq (Fin a) (Fin b) = (a = b)"
| "strict_eq _ _ = False"

text \<open>\<open>item.id === id\<close>; an absent identifier is \<open>undefined\<close>, which is no number.\<close>

definition same_id :: "BudgetItem \<Rightarrow> number \<Rightarrow> bool" where
  "same_id item k = (case item_id item of Some j \<Rightarrow> strict_eq j k | None \<Rightarrow> False)"

text \<open>The number an arithmetic operator makes of a property: \<open>undefined\<close> becomes \<open>NaN\<close>.\<close>

fun to_number :: "number option \<Rightarrow> number" where
  "to_number None = NaN"
| "to_number (Some n) = n"

text \<open>\<open>{ ...product, quantity: 1, total: product.valor }\<close>.\<close>

definition new_item :: "Product \<Rightarrow> BudgetItem" where
  "new_item product =
     \<lparr>item_id = Some (Product.item_id product), nome = Some (Product.nome product),
      cm = Some (Product.cm product), valor = Some (Product.valor product),
      imagem = Product.imagem product,
      quantity = Some (Fin 1), item_total = Some (Product.valor product)\<rparr>"

definition addItem :: "Product \<Rightarrow> BudgetItem list \<Rightarrow> BudgetItem list" where
  "addItem product prev =
     (case find (\<lambda>item. same_id item (Product.item_id product)) prev of
        Some existing \<Rightarrow>
          map (\<lambda>item.
                 if same_id item (Product.item_id product)
                 then item\<lparr>quantity := Some (num_add (to_number (quantity item)) (Fin 1)),
                           item_total := Some (num_mul (num_add (to_number (quantity item)) (Fin 1))
                                                        (to_number (valor item)))\<rparr>
                 else item) prev
      | None \<Rightarrow> prev @ [new_item product])"

definition removeItem :: "number \<Rightarrow> BudgetItem list \<Rightarrow> BudgetItem list" where
  "removeItem k prev = filter (\<lambda>item. \<not> same_id item k) prev"

definition updateQuantity :: "number \<Rightarrow> number \<Rightarrow> BudgetItem list \<Rightarrow> BudgetItem list" where
  "updateQuantity k delta prev =
     map (\<lambda>item.
            if same_id item k
            then (let newQty = num_max (Fin 1) (num_add (to_number (quantity item)) delta)
                  in item\<lparr>quantity := Some newQty,
                          item_total := Some (num_mul newQty (to_number (valor item)))\<rparr>)
            else item) prev"

text \<open>
  What the page lets the user do to the cart: add a product, remove a line, and change a
  quantity by a whole number (the two buttons pass \<open>1\<close> and \<open>-1\<close>). Deleting a product
  from the catalog removes its line like \<open>removeItem\<close>.
\<close>

datatype action = Add Product | Remove number | Update number int

fun apply_action :: "BudgetItem list \<Rightarrow> action \<Rightarrow> BudgetItem list" where
  "apply_action cart (Add product) = addItem product cart"
| "apply_action cart (Remove k) = removeItem k cart"
| "apply_action cart (Update k delta) = updateQuantity k (Fin (of_int delta)) cart"

text \<open>The cart starts empty.\<close>

definition budgetItems :: "action list \<Rightarrow> BudgetItem list" where
  "budgetItems actions = foldl apply_action [] actions"

text \<open>
  \<open>handleExportPDF\<close>: the cart goes to \<open>generatePDF\<close> as it is; an exception of the
  export ends in a notice.
\<close>

definition export_failed :: jsstring where
  "export_failed = ascii ''Erro ao gerar o PDF. Verifique sua conex'' @ [0xE3]
     @ ascii ''o e os links das imagens.''"

definition handleExportPDF :: "env \<Rightarrow> BudgetItem list \<Rightarrow> ClientInfo \<Rightarrow> effect list outcome" where
  "handleExportPDF e cart clientInfo =
     (if length cart = 0
      then Returns [Alert (ascii ''Adicione pelo menos um item ao or'' @ [0xE7] @ ascii ''amento.'')]
      else (case generatePDF e (Some (map Item cart)) clientInfo of
              Throws x \<Rightarrow> Returns [Alert export_failed]
            | r \<Rightarrow> r))"


section \<open>The statements of the specification\<close>

text \<open>
  The contribution of a line to the aggregate total in the words of the specification:
  its total, and zero when the total is missing or is not a number.
\<close>

definition spec_contribution :: "BudgetItem \<Rightarrow> rat" where
  "spec_contribution item = (case item_total item of Some (Fin r) \<Rightarrow> r | _ \<Rightarrow> 0)"

text \<open>
  The sanitized name in the words of the specification: the characters outside
  \<open>[A-Za-z0-9]\<close> are removed, and the rest is cut at 30 characters.
\<close>

definition spec_cleanClientName :: "ClientInfo \<Rightarrow> jsstring" where
  "spec_cleanClientName client = take 30 (filter is_alnum (str_or (name client) (ascii ''Cliente'')))"

text \<open>
  The invariant of a line in the words of the specification: the quantity is a whole
  number of at least 1, and the total is the quantity times the unit price.
\<close>

definition is_integer :: "rat \<Rightarrow> bool" where
  "is_integer q = (of_int \<lfloor>q\<rfloor> = q)"

definition item_ok :: "BudgetItem \<Rightarrow> bool" where
  "item_ok item =
     (case (quantity item, valor item, item_total item) of
        (Some (Fin q), Some v, Some t) \<Rightarrow> is_integer q \<and> 1 \<le> q \<and> t = num_mul (Fin q) v
      | _ \<Rightarrow> False)"


section \<open>Auxiliary facts\<close>

subsection \<open>The resolver settles\<close>

lemma take_eq_prefix: "(take (length p) s = p) = prefix p s"
  by (metis append_eq_conv_conj prefix_def)

lemma ascii_http_ne: "ascii ''http'' \<noteq> []"
  by (simp add: ascii_def)

lemma invalid_url_iff:
  "invalid_url url = Inr (\<not> (\<exists>s. url = String s \<and> prefix (ascii ''http'') s))"
  by (cases url) (auto simp: invalid_url_def take_eq_prefix ascii_http_ne)

lemma run_callback_Pending:
  "\<exists>v. run_callback cb Pending = Fulfilled v \<and> (v = None \<or> (\<exists>p. v = Some (ascii ''data:'' @ p)))"
proof (cases cb)
  case (ImageCallback e)
  show ?thesis
  proof (cases e)
    case (OnLoad r)
    then show ?thesis using ImageCallback by (cases r) (simp_all add: onload_def)
  next
    case OnError
    then show ?thesis using ImageCallback by (simp add: onerror_def)
  qed
next
  case TimerCallback
  then show ?thesis by simp
qed

lemma run_callback_settled: "run_callback cb (Fulfilled v) = Fulfilled v"
proof (cases cb)
  case (ImageCallback e)
  show ?thesis
  proof (cases e)
    case (OnLoad r)
    then show ?thesis using ImageCallback by (cases r) (simp_all add: onload_def)
  next
    case OnError
    then show ?thesis using ImageCallback by (simp add: onerror_def)
  qed
next
  case TimerCallback
  then show ?thesis by simp
qed

lemma fire_Pending:
  "fire (t, cb) \<lparr>requested = q, settled_at = None, state = Pending\<rparr> =
     \<lparr>requested = q, settled_at = Some t, state = run_callback cb Pending\<rparr>"
  using run_callback_Pending [of cb] by (auto simp: fire_def Let_def)

lemma fire_Fulfilled:
  "fire (t, cb) \<lparr>requested = q, settled_at = a, state = Fulfilled v\<rparr> =
     \<lparr>requested = q, settled_at = a, state = Fulfilled v\<rparr>"
  by (simp add: fire_def Let_def run_callback_settled)

lemma started_result:
  "fire_all (schedule ev) \<lparr>requested = True, settled_at = None, state = Pending\<rparr> =
     (case ev of
        None \<Rightarrow> \<lparr>requested = True, settled_at = Some timeout_ms, state = Fulfilled None\<rparr>
      | Some (t, e) \<Rightarrow>
          if t < timeout_ms
          then \<lparr>requested = True, settled_at = Some t, state = run_callback (ImageCallback e) Pending\<rparr>
          else \<lparr>requested = True, settled_at = Some timeout_ms, state = Fulfilled None\<rparr>)"
proof (cases ev)
  case None
  then show ?thesis by (simp add: schedule_def fire_Pending)
next
  case (Some te)
  obtain t e where te: "te = (t, e)" by (cases te)
  obtain v where v: "run_callback (ImageCallback e) Pending = Fulfilled v"
    using run_callback_Pending by blast
  show ?thesis
    using Some te v by (simp add: schedule_def fire_Pending fire_Fulfilled)
qed

lemma resolver_fulfilled:
  "\<exists>v. state (getBase64ImageFromURL ev url) = Fulfilled v \<and>
       (v = None \<or> (\<exists>p. v = Some (ascii ''data:'' @ p)))"
proof (cases "\<exists>s. url = String s \<and> prefix (ascii ''http'') s")
  case False
  then show ?thesis by (simp add: getBase64ImageFromURL_def invalid_url_iff)
next
  case True
  then have inv: "invalid_url url = Inr False" by (simp add: invalid_url_iff)
  show ?thesis
  proof (cases ev)
    case None
    then show ?thesis by (simp add: getBase64ImageFromURL_def inv started_result)
  next
    case (Some te)
    obtain t e where te: "te = (t, e)" by (cases te)
    show ?thesis
      using Some te run_callback_Pending [of "ImageCallback e"]
      by (auto simp: getBase64ImageFromURL_def inv started_result)
  qed
qed

lemma ascii_data_ne: "ascii ''data:'' @ p \<noteq> []"
  by (simp add: ascii_def)

lemma resolver_value:
  "\<exists>v. state (getBase64ImageFromURL ev url) = Fulfilled v \<and> v \<noteq> Some []"
  using resolver_fulfilled [of ev url] ascii_data_ne by auto


subsection \<open>The image cache\<close>

lemma preload_item_fulfilled:
  assumes mem: "(k, u, r) \<in> set (preload_item ev item)"
  shows "(\<exists>v. state r = Fulfilled v \<and> v \<noteq> Some []) \<and> num_truthy k"
proof (cases "item_id item")
  case None
  then show ?thesis using mem by (simp add: preload_item_def)
next
  case (Some j)
  show ?thesis
  proof (cases "imagem item")
    case None
    then show ?thesis using mem Some by (simp add: preload_item_def)
  next
    case (Some w)
    then show ?thesis
      using mem \<open>item_id item = Some j\<close> resolver_value [of ev "String w"]
      by (auto simp: preload_item_def split: if_splits)
  qed
qed

lemma preload_from_fulfilled:
  "(k, u, r) \<in> set (preload_from i evs items) \<Longrightarrow>
     (\<exists>v. state r = Fulfilled v \<and> v \<noteq> Some []) \<and> num_truthy k"
proof (induction items arbitrary: i)
  case Nil
  then show ?case by simp
next
  case (Cons item items)
  then show ?case using preload_item_fulfilled by fastforce
qed

text \<open>What holds of every cache the export builds: a property is stored only under a
  truthy identifier, and holds \<open>null\<close> or a non-empty string.\<close>

lemma store_all_returns:
  assumes "\<forall>(k, u, r) \<in> set loads. (\<exists>v. state r = Fulfilled v \<and> v \<noteq> Some []) \<and> num_truthy k"
    and "\<forall>k v. cache k = Some v \<longrightarrow> num_truthy k \<and> v \<noteq> Some []"
  shows "\<exists>cache'. store_all loads cache = Returns cache' \<and>
           (\<forall>k v. cache' k = Some v \<longrightarrow> num_truthy k \<and> v \<noteq> Some [])"
  using assms
proof (induction loads arbitrary: cache)
  case Nil
  then show ?case by simp
next
  case (Cons l loads)
  obtain k u r where l: "l = (k, u, r)" by (cases l)
  from Cons.prems(1) l obtain v where v: "state r = Fulfilled v" "v \<noteq> Some []" and k: "num_truthy k"
    by auto
  have "\<forall>j w. (cache(k \<mapsto> v)) j = Some w \<longrightarrow> num_truthy j \<and> w \<noteq> Some []"
    using Cons.prems(2) k v(2) by simp
  moreover have "\<forall>(k, u, r) \<in> set loads. (\<exists>v. state r = Fulfilled v \<and> v \<noteq> Some []) \<and> num_truthy k"
    using Cons.prems(1) by simp
  ultimately obtain cache' where "store_all loads (cache(k \<mapsto> v)) = Returns cache'"
    and "\<forall>k v. cache' k = Some v \<longrightarrow> num_truthy k \<and> v \<noteq> Some []"
    using Cons.IH by blast
  then show ?case using l v(1) by simp
qed

lemma await_all_returns:
  "\<exists>cache. await_all (preload_from i evs items) = Returns cache \<and>
     (\<forall>k v. cache k = Some v \<longrightarrow> num_truthy k \<and> v \<noteq> Some [])"
proof -
  have "\<forall>(k, u, r) \<in> set (settle_order (preload_from i evs items)).
          (\<exists>v. state r = Fulfilled v \<and> v \<noteq> Some []) \<and> num_truthy k"
    using preload_from_fulfilled by (auto simp: settle_order_def)
  moreover have "\<forall>k v. (Map.empty :: image_cache) k = Some v \<longrightarrow> num_truthy k \<and> v \<noteq> Some []"
    by simp
  ultimately show ?thesis
    unfolding await_all_def by (rule store_all_returns)
qed


subsection \<open>The run of the export\<close>

lemma logo_effects_returns:
  "\<exists>drawn. logo_effects lib (getBase64ImageFromURL ev url) = Returns drawn \<and> AddPage \<notin> set drawn"
proof -
  obtain v where v: "state (getBase64ImageFromURL ev url) = Fulfilled v"
    using resolver_fulfilled by blast
  let ?drawn = "if truthy (str_val v)
     then (case v of Some b \<Rightarrow> (case doc_addImage lib b 15 10 35 12 of Inl e \<Rightarrow> [] | Inr es \<Rightarrow> es)
           | None \<Rightarrow> [])
     else []"
  have "logo_effects lib (getBase64ImageFromURL ev url) = Returns ?drawn"
    unfolding logo_effects_def by (simp add: v)
  moreover have "AddPage \<notin> set ?drawn"
  proof (cases v)
    case None
    then show ?thesis by simp
  next
    case (Some b)
    then show ?thesis
      by (cases "lib b") (simp_all add: doc_addImage_def cong: if_cong)
  qed
  ultimately show ?thesis by blast
qed



lemma didDrawCell_blank_falsy_id:
  "item_at items (row_index d) = Some item \<Longrightarrow> \<not> truthy (num_val (item_id item)) \<Longrightarrow>
     didDrawCell lib items cache d = Inr []"
  by (simp add: didDrawCell_def)




lemma didDrawCell_cases:
  "didDrawCell accepts_all items cache d = Inr [] \<or>
   (\<exists>b. didDrawCell accepts_all items cache d =
      Inr [AddImage b (cell_x d + (cell_width d - 18) / 2) (cell_y d + (cell_height d - 18) / 2) 18 18])"
  by (auto simp: didDrawCell_def doc_addImage_def accepts_all_def Let_def imgSize_def item_at_def
      split: jsval.splits)

lemma draw_cells_returns:
  "\<exists>es. draw_cells accepts_all items cache ds = Inr es \<and> AddPage \<notin> set es"
proof (induction ds)
  case Nil
  then show ?case by simp
next
  case (Cons d ds)
  then obtain es where es: "draw_cells accepts_all items cache ds = Inr es" "AddPage \<notin> set es" by blast
  from didDrawCell_cases [of items cache d] show ?case
    using es by auto
qed


lemma AddPage_notin_requests: "AddPage \<notin> set (requests loads)"
  by (auto simp: requests_def)

lemma AddPage_notin_header: "AddPage \<notin> set (header client)"
  by (auto simp: header_def split: option.splits)

lemma generatePDF_shape:
  assumes "validItems items \<noteq> []"
  shows "\<exists>pre. generatePDF e items client =
            Returns (NewDoc # pre @ footer e (totalPrice (validItems items)) @ [Save (fileName client)])
          \<and> AddPage \<notin> set pre
          \<and> Text [Lit (ascii ''Emiss'' @ [0xE3] @ ascii ''o: ''), LocaleDate (issue_date client)] 195 26 AlignRight \<in> set pre"
proof -
  obtain cache where c: "await_all (preload_from 0 (item_image e) (validItems items)) = Returns cache"
    using await_all_returns by blast
  obtain drawn where l: "logo_effects accepts_all (getBase64ImageFromURL (logo_image e) (String logoUrl)) = Returns drawn"
    "AddPage \<notin> set drawn"
    using logo_effects_returns by blast
  obtain es where d: "draw_cells accepts_all (validItems items) cache (drawn_cells e) = Inr es" "AddPage \<notin> set es"
    using draw_cells_returns by blast
  let ?loads = "preload_from 0 (item_image e) (validItems items)"
  let ?pre = "requests ?loads
     @ (if requested (getBase64ImageFromURL (logo_image e) (String logoUrl)) then [LoadImage logoUrl] else [])
     @ drawn @ header client @ [AutoTable tableHead (tableRows (validItems items))] @ es"
  have "generatePDF e items client =
      Returns (NewDoc # ?pre @ footer e (totalPrice (validItems items)) @ [Save (fileName client)])"
    using assms c l(1) d(1) by (simp add: generatePDF_def Let_def)
  moreover have "AddPage \<notin> set ?pre"
    using l(2) d(2) AddPage_notin_requests AddPage_notin_header by auto
  moreover have "Text [Lit (ascii ''Emiss'' @ [0xE3] @ ascii ''o: ''), LocaleDate (issue_date client)] 195 26 AlignRight \<in> set ?pre"
    by (simp add: header_def)
  ultimately show ?thesis by blast
qed

lemma generatePDF_saves:
  assumes "validItems items \<noteq> []"
  shows "\<exists>pre. generatePDF e items client = Returns (pre @ [Save (fileName client)])"
proof -
  obtain pre where "generatePDF e items client =
      Returns (NewDoc # pre @ footer e (totalPrice (validItems items)) @ [Save (fileName client)])"
    using generatePDF_shape [OF assms] by blast
  then have "generatePDF e items client =
      Returns ((NewDoc # pre @ footer e (totalPrice (validItems items))) @ [Save (fileName client)])"
    by simp
  then show ?thesis by blast
qed

lemma generatePDF_issue_date:
  assumes "validItems items \<noteq> []"
  shows "\<exists>pre post. generatePDF e items client =
     Returns (pre @ [Text [Lit (ascii ''Emiss'' @ [0xE3] @ ascii ''o: ''), LocaleDate (issue_date client)]
                       195 26 AlignRight] @ post)"
proof -
  let ?t = "Text [Lit (ascii ''Emiss'' @ [0xE3] @ ascii ''o: ''), LocaleDate (issue_date client)] 195 26 AlignRight"
  obtain pre where pre: "generatePDF e items client =
      Returns (NewDoc # pre @ footer e (totalPrice (validItems items)) @ [Save (fileName client)])"
    and mem: "?t \<in> set pre"
    using generatePDF_shape [OF assms] by blast
  obtain ys zs where "pre = ys @ ?t # zs"
    using mem by (meson split_list)
  then have "generatePDF e items client =
      Returns ((NewDoc # ys) @ [?t] @ (zs @ footer e (totalPrice (validItems items)) @ [Save (fileName client)]))"
    using pre by simp
  then show ?thesis by blast
qed

lemma AddPage_notin_footer_rest:
  "\<exists>post. AddPage \<notin> set post \<and>
     footer e price @ [Save f] =
       (if finalY e + 10 + 40 > pageHeight e
        then [AddPage, RoundedRect 130 20 65 15, Text [Lit (ascii ''VALOR TOTAL:'')] 135 (20 + 9) AlignLeft] @ post
        else [RoundedRect 130 (finalY e + 10) 65 15,
              Text [Lit (ascii ''VALOR TOTAL:'')] 135 (finalY e + 10 + 9) AlignLeft] @ post)"
  by (cases "finalY e + 10 + 40 > pageHeight e") (simp_all add: footer_def Let_def)


subsection \<open>The total\<close>

lemma num_or_zero: "num_or (item_total item) (Fin 0) = Fin (spec_contribution item)"
proof (cases "item_total item")
  case None
  then show ?thesis by (simp add: num_or_def spec_contribution_def)
next
  case (Some n)
  then show ?thesis by (cases n) (simp_all add: num_or_def spec_contribution_def)
qed

lemma foldl_total:
  "foldl (\<lambda>sum item. num_add sum (num_or (item_total item) (Fin 0))) (Fin a) items =
     Fin (a + sum_list (map spec_contribution items))"
  by (induction items arbitrary: a) (simp_all add: num_or_zero add.assoc)

lemma totalPrice_sum: "totalPrice items = Fin (sum_list (map spec_contribution items))"
  using foldl_total [of 0 items] by (simp add: totalPrice_def)


subsection \<open>Dates on the host\<close>

lemma ascii_append: "ascii a @ ascii b = ascii (a @ b)"
  by (simp add: ascii_def)

lemma parse_example:
  "parse_local (ascii ''2024-03-05T12:00:00'') = Some (2024, 3, 5, 12, 0, 0)"
  by code_simp

lemma parse_bad_example:
  "parse_local (ascii ''2024-13-45T12:00:00'') = None"
  by code_simp

lemma format_example:
  "toLocaleDateString 0 (Some 1709640000000) = ascii ''05/03/2024''"
  by code_simp

lemma days_example: "days_from_civil 2024 3 5 = 19787"
  by code_simp

lemma toLocaleDateString_shift:
  "toLocaleDateString tz (Some (ms - tz * 60000)) = toLocaleDateString 0 (Some ms)"
  by (simp add: toLocaleDateString_def)

lemma midday_any_offset:
  "host_date_text tz now (DateOf (ascii ''2024-03-05T12:00:00'')) = ascii ''05/03/2024''"
proof -
  have "time_value tz now (DateOf (ascii ''2024-03-05T12:00:00'')) = Some (1709640000000 - tz * 60000)"
    by (simp add: time_value_def parse_example days_example)
  then show ?thesis
    by (simp add: host_date_text_def toLocaleDateString_shift format_example)
qed


subsection \<open>The cart\<close>

lemma is_integer_iff: "is_integer q = (q \<in> \<int>)"
  unfolding is_integer_def by (metis Ints_of_int Ints_cases floor_of_int)

lemma is_integer_step: "is_integer q \<Longrightarrow> is_integer (max 1 (q + of_int d))"
  by (simp add: is_integer_iff max_def)

lemma is_integer_succ: "is_integer q \<Longrightarrow> is_integer (q + 1)"
  by (simp add: is_integer_iff)

lemma item_ok_new: "item_ok (new_item product)"
  by (cases "Product.valor product") (simp_all add: item_ok_def new_item_def is_integer_def)

lemma item_ok_cases:
  "item_ok item = (\<exists>q v. quantity item = Some (Fin q) \<and> valor item = Some v \<and>
      item_total item = Some (num_mul (Fin q) v) \<and> is_integer q \<and> 1 \<le> q)"
  by (auto simp: item_ok_def split: option.splits number.splits)

lemma item_ok_increment:
  assumes "item_ok item"
  shows "item_ok (item\<lparr>quantity := Some (num_add (to_number (quantity item)) (Fin 1)),
                        item_total := Some (num_mul (num_add (to_number (quantity item)) (Fin 1))
                                                     (to_number (valor item)))\<rparr>)"
proof -
  obtain q v where "quantity item = Some (Fin q)" "valor item = Some v"
    "is_integer q" "1 \<le> q"
    using assms unfolding item_ok_cases by blast
  then show ?thesis
    unfolding item_ok_cases by (simp add: is_integer_succ)
qed

lemma item_ok_update:
  assumes "item_ok item"
  shows "item_ok (let newQty = num_max (Fin 1) (num_add (to_number (quantity item)) (Fin (of_int delta)))
                  in item\<lparr>quantity := Some newQty,
                          item_total := Some (num_mul newQty (to_number (valor item)))\<rparr>)"
proof -
  obtain q v where "quantity item = Some (Fin q)" "valor item = Some v"
    "is_integer q" "1 \<le> q"
    using assms unfolding item_ok_cases by blast
  then show ?thesis
    unfolding item_ok_cases by (simp add: is_integer_step Let_def)
qed

lemma addItem_ok:
  assumes "\<forall>item \<in> set prev. item_ok item"
  shows "\<forall>item \<in> set (addItem product prev). item_ok item"
proof (cases "find (\<lambda>item. same_id item (Product.item_id product)) prev")
  case None
  then show ?thesis using assms by (simp add: addItem_def item_ok_new)
next
  case (Some existing)
  then show ?thesis using assms by (auto simp: addItem_def item_ok_increment)
qed

lemma removeItem_ok:
  "\<forall>item \<in> set prev. item_ok item \<Longrightarrow> \<forall>item \<in> set (removeItem k prev). item_ok item"
  by (simp add: removeItem_def)

lemma updateQuantity_ok:
  assumes "\<forall>item \<in> set prev. item_ok item"
  shows "\<forall>item \<in> set (updateQuantity k (Fin (of_int delta)) prev). item_ok item"
  using assms item_ok_update unfolding updateQuantity_def by auto

lemma apply_action_ok:
  assumes "\<forall>item \<in> set cart. item_ok item"
  shows "\<forall>item \<in> set (apply_action cart a). item_ok item"
proof (cases a)
  case (Add product)
  then show ?thesis using addItem_ok [OF assms] by simp
next
  case (Remove k)
  then show ?thesis using removeItem_ok [OF assms] by simp
next
  case (Update k delta)
  then show ?thesis using updateQuantity_ok [OF assms] by simp
qed

lemma foldl_actions_ok:
  "\<forall>item \<in> set cart. item_ok item \<Longrightarrow> \<forall>item \<in> set (foldl apply_action cart actions). item_ok item"
proof (induction actions arbitrary: cart)
  case Nil
  then show ?case by simp
next
  case (Cons a actions)
  have "\<forall>item \<in> set (apply_action cart a). item_ok item"
    using Cons.prems by (rule apply_action_ok)
  then show ?case using Cons.IH by simp
qed

lemma validItems_of_cart: "validItems (Some (map Item cart)) = cart"
  by (induction cart) (simp_all add: validItems_def)


section \<open>The claims\<close>

text \<open>
  C1. When no element of the array survives the filter (or the array itself is missing),
  \<open>generatePDF\<close> shows the notice and returns: the run consists of the alert alone, so
  no document is created, no image is requested and nothing is saved.
\<close>

theorem empty_cart_aborts:
  assumes "validItems items = []"
  shows "generatePDF e items client = Returns [Alert empty_notice]"
  using assms by (simp add: generatePDF_def)

theorem empty_cart_aborts_witness:
  "validItems (Some [Other Null, Other (Number (Fin 3)), Other Undefined, Other (String (ascii ''x''))]) = [] \<and>
   generatePDF \<lparr>item_image = (\<lambda>i. None), logo_image = None, drawn_cells = [], lastAutoTable = Some 100, pageHeight = 297\<rparr>
     (Some [Other Null, Other (Number (Fin 3)), Other Undefined, Other (String (ascii ''x''))])
     \<lparr>name = None, phone = None, date = None\<rparr> = Returns [Alert empty_notice]"
  using empty_cart_aborts [of "Some [Other Null, Other (Number (Fin 3)), Other Undefined, Other (String (ascii ''x''))]"
      "\<lparr>item_image = (\<lambda>i. None), logo_image = None, drawn_cells = [], lastAutoTable = Some 100, pageHeight = 297\<rparr>"
      "\<lparr>name = None, phone = None, date = None\<rparr>"]
  by (simp add: validItems_def)


text \<open>
  C2. When at least one item is valid, the text drawn at the right of the summary box,
  next to the label, is the currency format of the sum of the items' totals, where an
  absent total and a total that is \<open>NaN\<close> count as zero. (Totals are numbers or absent,
  as \<open>types.ts\<close> declares them, and sums are exact.)
\<close>

theorem footer_total_is_sum:
  assumes "validItems items \<noteq> []"
  shows "\<exists>pre footerY post. generatePDF e items client =
           Returns (pre @ [RoundedRect 130 footerY 65 15,
                           Text [Lit (ascii ''VALOR TOTAL:'')] 135 (footerY + 9) AlignLeft,
                           Text [Currency (Fin (\<Sum>item\<leftarrow>validItems items. spec_contribution item))]
                             190 (footerY + 9) AlignRight] @ post)"
proof -
  obtain pre where pre: "generatePDF e items client =
      Returns (NewDoc # pre @ footer e (totalPrice (validItems items)) @ [Save (fileName client)])"
    using generatePDF_shape [OF assms] by blast
  let ?fy = "if finalY e + 10 + 40 > pageHeight e then 20 else finalY e + 10"
  let ?pre = "NewDoc # pre @ (if finalY e + 10 + 40 > pageHeight e then [AddPage] else [])"
  have "\<exists>post. footer e (totalPrice (validItems items)) @ [Save (fileName client)] =
      (if finalY e + 10 + 40 > pageHeight e then [AddPage] else []) @
      [RoundedRect 130 ?fy 65 15,
       Text [Lit (ascii ''VALOR TOTAL:'')] 135 (?fy + 9) AlignLeft,
       Text [Currency (Fin (\<Sum>item\<leftarrow>validItems items. spec_contribution item))] 190 (?fy + 9) AlignRight] @ post"
    by (simp add: footer_def Let_def totalPrice_sum)
  then obtain post where "footer e (totalPrice (validItems items)) @ [Save (fileName client)] =
      (if finalY e + 10 + 40 > pageHeight e then [AddPage] else []) @
      [RoundedRect 130 ?fy 65 15,
       Text [Lit (ascii ''VALOR TOTAL:'')] 135 (?fy + 9) AlignLeft,
       Text [Currency (Fin (\<Sum>item\<leftarrow>validItems items. spec_contribution item))] 190 (?fy + 9) AlignRight] @ post"
    by blast
  then have "generatePDF e items client = Returns (?pre @ [RoundedRect 130 ?fy 65 15,
       Text [Lit (ascii ''VALOR TOTAL:'')] 135 (?fy + 9) AlignLeft,
       Text [Currency (Fin (\<Sum>item\<leftarrow>validItems items. spec_contribution item))] 190 (?fy + 9) AlignRight] @ post)"
    using pre by simp
  then show ?thesis by blast
qed

theorem footer_total_is_sum_witness:
  "validItems (Some [Other Null, Item (no_properties\<lparr>item_total := Some (Fin 25)\<rparr>),
                     Item no_properties, Item (no_properties\<lparr>item_total := Some NaN\<rparr>),
                     Item (no_properties\<lparr>item_total := Some (Fin (7 / 2))\<rparr>)]) \<noteq> [] \<and>
   (\<exists>pre footerY post.
      generatePDF \<lparr>item_image = (\<lambda>i. None), logo_image = None, drawn_cells = [],
                   lastAutoTable = Some 100, pageHeight = 297\<rparr>
        (Some [Other Null, Item (no_properties\<lparr>item_total := Some (Fin 25)\<rparr>),
               Item no_properties, Item (no_properties\<lparr>item_total := Some NaN\<rparr>),
               Item (no_properties\<lparr>item_total := Some (Fin (7 / 2))\<rparr>)])
        \<lparr>name = None, phone = None, date = None\<rparr> =
      Returns (pre @ [RoundedRect 130 footerY 65 15,
                      Text [Lit (ascii ''VALOR TOTAL:'')] 135 (footerY + 9) AlignLeft,
                      Text [Currency (Fin (57 / 2))] 190 (footerY + 9) AlignRight] @ post))"
proof -
  let ?items = "Some [Other Null, Item (no_properties\<lparr>item_total := Some (Fin 25)\<rparr>),
               Item no_properties, Item (no_properties\<lparr>item_total := Some NaN\<rparr>),
               Item (no_properties\<lparr>item_total := Some (Fin (7 / 2))\<rparr>)]"
  have v: "validItems ?items \<noteq> []"
    by (simp add: validItems_def)
  have s: "(\<Sum>item\<leftarrow>validItems ?items. spec_contribution item) = 57 / 2"
    by (simp add: validItems_def spec_contribution_def no_properties_def)
  from footer_total_is_sum [OF v] show ?thesis
    unfolding s using v by blast
qed





text \<open>
  C4, as amended. The file is saved under \<open>Orcamento_\<close>, the sanitized name and \<open>.pdf\<close>.
  The sanitized name is the client's name (\<open>Cliente\<close> when the name is absent or empty)
  with every code unit outside \<open>[A-Za-z0-9]\<close> replaced by an underscore, not removed,
  cut at 30 code units: it is as long as the name, up to 30, and holds only ASCII
  letters, digits and underscores.
\<close>

theorem file_name_underscores:
  "fileName client = ascii ''Orcamento_'' @ cleanClientName client @ ascii ''.pdf'' \<and>
   cleanClientName client =
     take 30 (map (\<lambda>c. if is_alnum c then c else 0x5F) (str_or (name client) (ascii ''Cliente''))) \<and>
   length (cleanClientName client) = min 30 (length (str_or (name client) (ascii ''Cliente''))) \<and>
   (\<forall>c \<in> set (cleanClientName client). is_alnum c \<or> c = 0x5F) \<and>
   (name client = None \<or> name client = Some [] \<longrightarrow> fileName client = ascii ''Orcamento_Cliente.pdf'') \<and>
   (validItems items \<noteq> [] \<longrightarrow>
      (\<exists>pre. generatePDF e items client = Returns (pre @ [Save (fileName client)])))"
proof (intro conjI impI)
  show "fileName client = ascii ''Orcamento_'' @ cleanClientName client @ ascii ''.pdf''"
    by (simp add: fileName_def)
  show eq: "cleanClientName client =
     take 30 (map (\<lambda>c. if is_alnum c then c else 0x5F) (str_or (name client) (ascii ''Cliente'')))"
    by (simp add: cleanClientName_def substring0_def replace_non_alnum_def)
  show "length (cleanClientName client) = min 30 (length (str_or (name client) (ascii ''Cliente'')))"
    unfolding eq by simp
  show "\<forall>c \<in> set (cleanClientName client). is_alnum c \<or> c = 0x5F"
    unfolding eq by (auto dest!: in_set_takeD)
  show "fileName client = ascii ''Orcamento_Cliente.pdf''"
    if "name client = None \<or> name client = Some []"
  proof -
    have "str_or (name client) (ascii ''Cliente'') = ascii ''Cliente''"
      using that by (auto simp: str_or_def)
    moreover have "take 30 (map (\<lambda>c. if is_alnum c then c else 0x5F) (ascii ''Cliente'')) = ascii ''Cliente''"
      by (simp add: ascii_def is_alnum_def)
    ultimately show ?thesis
      unfolding fileName_def eq by (simp add: ascii_def)
  qed
  show "\<exists>pre. generatePDF e items client = Returns (pre @ [Save (fileName client)])"
    if "validItems items \<noteq> []"
    using that by (rule generatePDF_saves)
qed

theorem file_name_underscores_witness:
  "validItems (Some [Item no_properties]) \<noteq> [] \<and>
   fileName \<lparr>name = Some (ascii ''Jo'' @ [0xE3] @ ascii ''o 99% Ltda!''), phone = None, date = None\<rparr>
     = ascii ''Orcamento_Jo_o_99__Ltda_.pdf'' \<and>
   fileName \<lparr>name = Some [], phone = None, date = None\<rparr> = ascii ''Orcamento_Cliente.pdf'' \<and>
   (\<exists>pre. generatePDF \<lparr>item_image = (\<lambda>i. None), logo_image = None, drawn_cells = [],
                 lastAutoTable = Some 100, pageHeight = 297\<rparr> (Some [Item no_properties])
               \<lparr>name = Some (ascii ''Jo'' @ [0xE3] @ ascii ''o 99% Ltda!''), phone = None, date = None\<rparr> =
      Returns (pre @ [Save (ascii ''Orcamento_Jo_o_99__Ltda_.pdf'')]))"
proof -
  let ?e = "\<lparr>item_image = (\<lambda>i. None), logo_image = None, drawn_cells = [],
              lastAutoTable = Some 100, pageHeight = 297\<rparr>"
  let ?c = "\<lparr>name = Some (ascii ''Jo'' @ [0xE3] @ ascii ''o 99% Ltda!''), phone = None, date = None\<rparr>"
  let ?d = "\<lparr>name = Some [], phone = None, date = None\<rparr>"
  have v: "validItems (Some [Item no_properties]) \<noteq> []"
    by (simp add: validItems_def)
  have n: "str_or (name ?c) (ascii ''Cliente'') = ascii ''Jo'' @ [0xE3] @ ascii ''o 99% Ltda!''"
    by (simp add: str_or_def ascii_def)
  note th = file_name_underscores [of ?c "Some [Item no_properties]" ?e]
  from th have "cleanClientName ?c =
     take 30 (map (\<lambda>c. if is_alnum c then c else 0x5F) (str_or (name ?c) (ascii ''Cliente'')))"
    by blast
  then have cl: "cleanClientName ?c = ascii ''Jo_o_99__Ltda_''"
    unfolding n by (simp add: ascii_def is_alnum_def)
  from th have "fileName ?c = ascii ''Orcamento_'' @ cleanClientName ?c @ ascii ''.pdf''"
    by blast
  then have f: "fileName ?c = ascii ''Orcamento_Jo_o_99__Ltda_.pdf''"
    unfolding cl by (simp add: ascii_def)
  from th v have "\<exists>pre. generatePDF ?e (Some [Item no_properties]) ?c = Returns (pre @ [Save (fileName ?c)])"
    by blast
  then have g: "\<exists>pre. generatePDF ?e (Some [Item no_properties]) ?c =
      Returns (pre @ [Save (ascii ''Orcamento_Jo_o_99__Ltda_.pdf'')])"
    unfolding f .
  have "name ?d = None \<or> name ?d = Some []" by simp
  with file_name_underscores [of ?d "Some [Item no_properties]" ?e]
  have h: "fileName ?d = ascii ''Orcamento_Cliente.pdf''"
    by blast
  show ?thesis using v f g h by blast
qed

text \<open>
  C4, as stated: the characters outside \<open>[A-Za-z0-9]\<close> are removed. For the name
  \<open>Joao 99% Ltda!\<close>, written with a tilde on the first a, the export keeps an
  underscore where the specification drops the character.
\<close>

theorem file_name_removal_counterexample:
  "cleanClientName \<lparr>name = Some (ascii ''Jo'' @ [0xE3] @ ascii ''o 99% Ltda!''), phone = None, date = None\<rparr>
     = ascii ''Jo_o_99__Ltda_'' \<and>
   spec_cleanClientName \<lparr>name = Some (ascii ''Jo'' @ [0xE3] @ ascii ''o 99% Ltda!''), phone = None, date = None\<rparr>
     = ascii ''Joo99Ltda'' \<and>
   cleanClientName \<lparr>name = Some (ascii ''Jo'' @ [0xE3] @ ascii ''o 99% Ltda!''), phone = None, date = None\<rparr>
     \<noteq> spec_cleanClientName \<lparr>name = Some (ascii ''Jo'' @ [0xE3] @ ascii ''o 99% Ltda!''), phone = None, date = None\<rparr>"
  by (simp add: cleanClientName_def spec_cleanClientName_def substring0_def replace_non_alnum_def
      str_or_def ascii_def is_alnum_def)


text \<open>
  C5, as amended. The header shows the label and the short date of \<open>issue_date\<close>: the
  current date when the date of the client is absent or empty, and otherwise the date
  read from the field followed by \<open>T12:00:00\<close>, whether it can be parsed or not. A
  field that does not parse is shown as \<open>Invalid Date\<close>; the field \<open>2024-03-05\<close> is
  shown as \<open>05/03/2024\<close> on a host at any fixed offset from UTC.
\<close>

theorem issue_date_from_field:
  "(validItems items \<noteq> [] \<longrightarrow>
      (\<exists>pre post. generatePDF e items client =
         Returns (pre @ [Text [Lit (ascii ''Emiss'' @ [0xE3] @ ascii ''o: ''), LocaleDate (issue_date client)]
                           195 26 AlignRight] @ post))) \<and>
   (date client = None \<or> date client = Some [] \<longrightarrow> issue_date client = DateNow) \<and>
   (\<forall>d. date client = Some d \<and> d \<noteq> [] \<longrightarrow> issue_date client = DateOf (d @ ascii ''T12:00:00'')) \<and>
   (\<forall>d tz now. date client = Some d \<and> d \<noteq> [] \<and> parse_local (d @ ascii ''T12:00:00'') = None \<longrightarrow>
      host_date_text tz now (issue_date client) = ascii ''Invalid Date'') \<and>
   (\<forall>tz now. date client = Some (ascii ''2024-03-05'') \<longrightarrow>
      host_date_text tz now (issue_date client) = ascii ''05/03/2024'')"
proof (intro conjI allI impI)
  show "\<exists>pre post. generatePDF e items client =
         Returns (pre @ [Text [Lit (ascii ''Emiss'' @ [0xE3] @ ascii ''o: ''), LocaleDate (issue_date client)]
                           195 26 AlignRight] @ post)"
    if "validItems items \<noteq> []"
    using that by (rule generatePDF_issue_date)
  show "issue_date client = DateNow" if "date client = None \<or> date client = Some []"
    using that by (auto simp: issue_date_def)
  show "issue_date client = DateOf (d @ ascii ''T12:00:00'')" if "date client = Some d \<and> d \<noteq> []" for d
    using that by (simp add: issue_date_def)
  show "host_date_text tz now (issue_date client) = ascii ''Invalid Date''"
    if "date client = Some d \<and> d \<noteq> [] \<and> parse_local (d @ ascii ''T12:00:00'') = None" for d tz now
    using that by (simp add: issue_date_def host_date_text_def time_value_def toLocaleDateString_def)
  show "host_date_text tz now (issue_date client) = ascii ''05/03/2024''"
    if "date client = Some (ascii ''2024-03-05'')" for tz now
  proof -
    have "ascii ''2024-03-05'' \<noteq> []" by (simp add: ascii_def)
    then have "issue_date client = DateOf (ascii ''2024-03-05T12:00:00'')"
      using that by (simp add: issue_date_def ascii_append)
    then show ?thesis by (simp add: midday_any_offset)
  qed
qed

theorem issue_date_from_field_witness:
  "validItems (Some [Item no_properties]) \<noteq> [] \<and>
   issue_date \<lparr>name = None, phone = None, date = Some (ascii ''2024-03-05'')\<rparr>
     = DateOf (ascii ''2024-03-05T12:00:00'') \<and>
   host_date_text (-180) 0 (issue_date \<lparr>name = None, phone = None, date = Some (ascii ''2024-03-05'')\<rparr>)
     = ascii ''05/03/2024'' \<and>
   host_date_text 840 0 (issue_date \<lparr>name = None, phone = None, date = Some (ascii ''2024-03-05'')\<rparr>)
     = ascii ''05/03/2024'' \<and>
   (\<exists>pre post. generatePDF \<lparr>item_image = (\<lambda>i. None), logo_image = None, drawn_cells = [],
                     lastAutoTable = Some 100, pageHeight = 297\<rparr> (Some [Item no_properties])
                   \<lparr>name = None, phone = None, date = Some (ascii ''2024-03-05'')\<rparr> =
      Returns (pre @ [Text [Lit (ascii ''Emiss'' @ [0xE3] @ ascii ''o: ''),
                            LocaleDate (DateOf (ascii ''2024-03-05T12:00:00''))] 195 26 AlignRight] @ post))"
proof -
  let ?e = "\<lparr>item_image = (\<lambda>i. None), logo_image = None, drawn_cells = [],
              lastAutoTable = Some 100, pageHeight = 297\<rparr>"
  let ?c = "\<lparr>name = None, phone = None, date = Some (ascii ''2024-03-05'')\<rparr>"
  note th = issue_date_from_field [of "Some [Item no_properties]" ?e ?c]
  have v: "validItems (Some [Item no_properties]) \<noteq> []"
    by (simp add: validItems_def)
  have d: "date ?c = Some (ascii ''2024-03-05'')" "ascii ''2024-03-05'' \<noteq> []"
    by (simp_all add: ascii_def)
  from th d have i: "issue_date ?c = DateOf (ascii ''2024-03-05'' @ ascii ''T12:00:00'')"
    by blast
  from th d have h: "host_date_text tz now (issue_date ?c) = ascii ''05/03/2024''" for tz now
    by blast
  from th v have g: "\<exists>pre post. generatePDF ?e (Some [Item no_properties]) ?c =
      Returns (pre @ [Text [Lit (ascii ''Emiss'' @ [0xE3] @ ascii ''o: ''), LocaleDate (issue_date ?c)]
                        195 26 AlignRight] @ post)"
    by blast
  show ?thesis
    using v h g unfolding i ascii_append by simp
qed

text \<open>
  C5, as stated: a date that is present but cannot be parsed gives the current date.
  For the field \<open>2024-13-45\<close> the header shows \<open>Invalid Date\<close>, not the date of the day.
\<close>

theorem unparsable_date_counterexample:
  "parse_local (ascii ''2024-13-45'' @ ascii ''T12:00:00'') = None \<and>
   host_date_text 0 1709640000000
     (issue_date \<lparr>name = None, phone = None, date = Some (ascii ''2024-13-45'')\<rparr>) = ascii ''Invalid Date'' \<and>
   host_date_text 0 1709640000000 DateNow = ascii ''05/03/2024'' \<and>
   host_date_text 0 1709640000000
     (issue_date \<lparr>name = None, phone = None, date = Some (ascii ''2024-13-45'')\<rparr>)
     \<noteq> host_date_text 0 1709640000000 DateNow"
  by code_simp






text \<open>
  C7. With \<open>finalY\<close> the end of the table, the footer starts 10 below it. If that
  position plus 40 exceeds the height of the page, a page is added and the summary box
  is drawn at 20 on it; otherwise no page is added and the box is drawn 10 below the
  table. The export adds no other page.
\<close>

theorem footer_pagination:
  assumes "validItems items \<noteq> []"
  shows "\<exists>pre post. AddPage \<notin> set pre \<and> AddPage \<notin> set post \<and>
     generatePDF e items client =
       Returns (if finalY e + 10 + 40 > pageHeight e
                then pre @ [AddPage, RoundedRect 130 20 65 15,
                            Text [Lit (ascii ''VALOR TOTAL:'')] 135 (20 + 9) AlignLeft] @ post
                else pre @ [RoundedRect 130 (finalY e + 10) 65 15,
                            Text [Lit (ascii ''VALOR TOTAL:'')] 135 (finalY e + 10 + 9) AlignLeft] @ post)"
proof -
  obtain pre where pre: "generatePDF e items client =
      Returns (NewDoc # pre @ footer e (totalPrice (validItems items)) @ [Save (fileName client)])"
    and no: "AddPage \<notin> set pre"
    using generatePDF_shape [OF assms] by blast
  obtain post where post: "AddPage \<notin> set post"
    "footer e (totalPrice (validItems items)) @ [Save (fileName client)] =
       (if finalY e + 10 + 40 > pageHeight e
        then [AddPage, RoundedRect 130 20 65 15, Text [Lit (ascii ''VALOR TOTAL:'')] 135 (20 + 9) AlignLeft] @ post
        else [RoundedRect 130 (finalY e + 10) 65 15,
              Text [Lit (ascii ''VALOR TOTAL:'')] 135 (finalY e + 10 + 9) AlignLeft] @ post)"
    using AddPage_notin_footer_rest by blast
  have "AddPage \<notin> set (NewDoc # pre)" using no by simp
  moreover have "generatePDF e items client =
       Returns (if finalY e + 10 + 40 > pageHeight e
                then (NewDoc # pre) @ [AddPage, RoundedRect 130 20 65 15,
                            Text [Lit (ascii ''VALOR TOTAL:'')] 135 (20 + 9) AlignLeft] @ post
                else (NewDoc # pre) @ [RoundedRect 130 (finalY e + 10) 65 15,
                            Text [Lit (ascii ''VALOR TOTAL:'')] 135 (finalY e + 10 + 9) AlignLeft] @ post)"
    unfolding pre using post(2) by (simp cong: if_cong)
  ultimately show ?thesis using post(1) by blast
qed

theorem footer_pagination_witness:
  "validItems (Some [Item no_properties]) \<noteq> [] \<and>
   (\<exists>pre post. AddPage \<notin> set pre \<and> AddPage \<notin> set post \<and>
      generatePDF \<lparr>item_image = (\<lambda>i. None), logo_image = None, drawn_cells = [],
                   lastAutoTable = Some 260, pageHeight = 297\<rparr> (Some [Item no_properties])
                 \<lparr>name = None, phone = None, date = None\<rparr> =
        Returns (pre @ [AddPage, RoundedRect 130 20 65 15,
                        Text [Lit (ascii ''VALOR TOTAL:'')] 135 29 AlignLeft] @ post)) \<and>
   (\<exists>pre post. AddPage \<notin> set pre \<and> AddPage \<notin> set post \<and>
      generatePDF \<lparr>item_image = (\<lambda>i. None), logo_image = None, drawn_cells = [],
                   lastAutoTable = Some 247, pageHeight = 297\<rparr> (Some [Item no_properties])
                 \<lparr>name = None, phone = None, date = None\<rparr> =
        Returns (pre @ [RoundedRect 130 257 65 15,
                        Text [Lit (ascii ''VALOR TOTAL:'')] 135 266 AlignLeft] @ post))"
proof -
  let ?e = "\<lparr>item_image = (\<lambda>i. None), logo_image = None, drawn_cells = [],
              lastAutoTable = Some 260, pageHeight = 297\<rparr>"
  let ?e' = "\<lparr>item_image = (\<lambda>i. None), logo_image = None, drawn_cells = [],
              lastAutoTable = Some 247, pageHeight = 297\<rparr>"
  let ?c = "\<lparr>name = None, phone = None, date = None\<rparr>"
  have v: "validItems (Some [Item no_properties]) \<noteq> []"
    by (simp add: validItems_def)
  have a: "\<exists>pre post. AddPage \<notin> set pre \<and> AddPage \<notin> set post \<and>
      generatePDF ?e (Some [Item no_properties]) ?c =
        Returns (pre @ [AddPage, RoundedRect 130 20 65 15,
                        Text [Lit (ascii ''VALOR TOTAL:'')] 135 29 AlignLeft] @ post)"
    using footer_pagination [OF v, of ?e ?c] by (simp add: finalY_def)
  have b: "\<exists>pre post. AddPage \<notin> set pre \<and> AddPage \<notin> set post \<and>
      generatePDF ?e' (Some [Item no_properties]) ?c =
        Returns (pre @ [RoundedRect 130 257 65 15,
                        Text [Lit (ascii ''VALOR TOTAL:'')] 135 266 AlignLeft] @ post)"
    using footer_pagination [OF v, of ?e' ?c] by (simp add: finalY_def)
  show ?thesis using v a b by blast
qed


text \<open>
  C8. For a URL that passes the guard, the timer of 5000 ms races against the load: if
  the load never ends, the promise is fulfilled with \<open>null\<close> at 5000 ms; if it ends
  earlier, its handler decides the result at that instant; if it ends later, the timer
  has decided. In every case the promise settles no later than 5000 ms after the call.
\<close>

theorem timeout_race:
  assumes "url = String s" and "prefix (ascii ''http'') s"
  shows "(ev = None \<longrightarrow>
            getBase64ImageFromURL ev url = \<lparr>requested = True, settled_at = Some 5000, state = Fulfilled None\<rparr>) \<and>
         (\<forall>t e. ev = Some (t, e) \<longrightarrow>
            getBase64ImageFromURL ev url =
              (if t < 5000
               then \<lparr>requested = True, settled_at = Some t, state = run_callback (ImageCallback e) Pending\<rparr>
               else \<lparr>requested = True, settled_at = Some 5000, state = Fulfilled None\<rparr>)) \<and>
         (\<exists>t. settled_at (getBase64ImageFromURL ev url) = Some t \<and> t \<le> 5000)"
proof -
  have inv: "invalid_url url = Inr False"
    using assms by (simp add: invalid_url_iff)
  have eq: "getBase64ImageFromURL ev url =
      fire_all (schedule ev) \<lparr>requested = True, settled_at = None, state = Pending\<rparr>"
    by (simp add: getBase64ImageFromURL_def inv)
  show ?thesis
    unfolding eq started_result
    by (cases ev) (auto simp: timeout_ms_def)
qed

theorem timeout_race_witness:
  "prefix (ascii ''http'') (ascii ''http://slow.example/a.png'') \<and>
   getBase64ImageFromURL None (String (ascii ''http://slow.example/a.png'')) =
     \<lparr>requested = True, settled_at = Some 5000, state = Fulfilled None\<rparr> \<and>
   getBase64ImageFromURL (Some (7000, OnLoad (Encoded []))) (String (ascii ''http://slow.example/a.png'')) =
     \<lparr>requested = True, settled_at = Some 5000, state = Fulfilled None\<rparr> \<and>
   getBase64ImageFromURL (Some (120, OnLoad (Encoded []))) (String (ascii ''http://slow.example/a.png'')) =
     \<lparr>requested = True, settled_at = Some 120, state = Fulfilled (Some (ascii ''data:''))\<rparr>"
proof -
  let ?u = "ascii ''http://slow.example/a.png''"
  have p: "prefix (ascii ''http'') ?u" by (simp add: ascii_def)
  note th = timeout_race [OF refl p]
  have a: "getBase64ImageFromURL None (String ?u) =
     \<lparr>requested = True, settled_at = Some 5000, state = Fulfilled None\<rparr>"
    using th [of None] by blast
  have b: "getBase64ImageFromURL (Some (7000, OnLoad (Encoded []))) (String ?u) =
     \<lparr>requested = True, settled_at = Some 5000, state = Fulfilled None\<rparr>"
    using th [of "Some (7000, OnLoad (Encoded []))"] by simp
  have c: "getBase64ImageFromURL (Some (120, OnLoad (Encoded []))) (String ?u) =
     \<lparr>requested = True, settled_at = Some 120, state = Fulfilled (Some (ascii ''data:''))\<rparr>"
    using th [of "Some (120, OnLoad (Encoded []))"] by (simp add: onload_def)
  show ?thesis using p a b c by blast
qed


text \<open>
  C9. Whatever the user does to the cart (adding products, changing quantities by whole
  numbers, removing lines), every line of the cart, and so every item that
  \<open>handleExportPDF\<close> hands to the export, has a whole quantity of at least 1 and a
  total equal to the quantity times the unit price.
\<close>

theorem cart_lines_consistent:
  "(\<forall>item \<in> set (budgetItems actions). item_ok item) \<and>
   (\<forall>item \<in> set (validItems (Some (map Item (budgetItems actions)))).
      \<exists>q v. quantity item = Some (Fin q) \<and> valor item = Some v \<and> q \<in> \<int> \<and> 1 \<le> q \<and>
            item_total item = Some (num_mul (Fin q) v))"
proof
  show ok: "\<forall>item \<in> set (budgetItems actions). item_ok item"
    unfolding budgetItems_def by (rule foldl_actions_ok) simp
  show "\<forall>item \<in> set (validItems (Some (map Item (budgetItems actions)))).
      \<exists>q v. quantity item = Some (Fin q) \<and> valor item = Some v \<and> q \<in> \<int> \<and> 1 \<le> q \<and>
            item_total item = Some (num_mul (Fin q) v)"
    using ok unfolding validItems_of_cart item_ok_cases is_integer_iff by blast
qed

theorem cart_lines_consistent_witness:
  "budgetItems
     [Add \<lparr>Product.item_id = Fin 7, nome = ascii ''Santa'', cm = ascii ''20'', valor = Fin (25 / 2), imagem = None\<rparr>,
      Add \<lparr>Product.item_id = Fin 7, nome = ascii ''Santa'', cm = ascii ''20'', valor = Fin (25 / 2), imagem = None\<rparr>,
      Update (Fin 7) 1, Update (Fin 7) (- 1), Update (Fin 7) (- 1), Update (Fin 7) (- 1)]
   = [\<lparr>item_id = Some (Fin 7), nome = Some (ascii ''Santa''), cm = Some (ascii ''20''),
        valor = Some (Fin (25 / 2)), imagem = None, quantity = Some (Fin 1),
        item_total = Some (Fin (25 / 2))\<rparr>] \<and>
   item_ok \<lparr>item_id = Some (Fin 7), nome = Some (ascii ''Santa''), cm = Some (ascii ''20''),
        valor = Some (Fin (25 / 2)), imagem = None, quantity = Some (Fin 1),
        item_total = Some (Fin (25 / 2))\<rparr>"
proof -
  let ?p = "\<lparr>Product.item_id = Fin 7, nome = ascii ''Santa'', cm = ascii ''20'', valor = Fin (25 / 2), imagem = None\<rparr>"
  let ?acts = "[Add ?p, Add ?p, Update (Fin 7) 1, Update (Fin 7) (- 1), Update (Fin 7) (- 1), Update (Fin 7) (- 1)]"
  have eq: "budgetItems ?acts
     = [\<lparr>item_id = Some (Fin 7), nome = Some (ascii ''Santa''), cm = Some (ascii ''20''),
        valor = Some (Fin (25 / 2)), imagem = None, quantity = Some (Fin 1),
        item_total = Some (Fin (25 / 2))\<rparr>]"
    by (simp add: budgetItems_def addItem_def updateQuantity_def new_item_def same_id_def Let_def)
  from cart_lines_consistent [of ?acts] show ?thesis
    unfolding eq by simp
qed


text \<open>
  C10. For a valid item whose identifier is falsy (\<open>0\<close>, \<open>NaN\<close> or absent), the resolver is
  not called even when the item has an image, the cache built by the export has no entry
  under the identifier, and the draw hook leaves the cell of its row blank whatever the
  cache holds.
\<close>

theorem falsy_id_has_no_thumbnail:
  assumes "i < length (validItems items)"
    and "\<not> truthy (num_val (item_id (validItems items ! i)))"
  shows "preload_item ev (validItems items ! i) = [] \<and>
         (\<forall>cache k. await_all (preload_from 0 (item_image e) (validItems items)) = Returns cache \<and>
            item_id (validItems items ! i) = Some k \<longrightarrow> cache k = None) \<and>
         (\<forall>lib cache d. row_index d = int i \<longrightarrow> didDrawCell lib (validItems items) cache d = Inr [])"
proof (intro conjI allI impI)
  show "preload_item ev (validItems items ! i) = []"
    using assms(2) by (auto simp: preload_item_def split: option.splits)
  show "cache k = None"
    if "await_all (preload_from 0 (item_image e) (validItems items)) = Returns cache \<and>
            item_id (validItems items ! i) = Some k" for cache k
  proof -
    obtain c where "await_all (preload_from 0 (item_image e) (validItems items)) = Returns c"
      and "\<forall>k v. c k = Some v \<longrightarrow> num_truthy k \<and> v \<noteq> Some []"
      using await_all_returns by blast
    then have "\<forall>k v. cache k = Some v \<longrightarrow> num_truthy k" using that by simp
    moreover have "\<not> num_truthy k" using assms(2) that by simp
    ultimately show ?thesis by (cases "cache k") auto
  qed
  show "didDrawCell lib (validItems items) cache d = Inr []" if "row_index d = int i" for lib cache d
    using assms that by (simp add: didDrawCell_def item_at_def)
qed

theorem falsy_id_has_no_thumbnail_witness:
  "validItems (Some [Item (no_properties\<lparr>item_id := Some (Fin 0), imagem := Some (ascii ''http://host/a.png'')\<rparr>)])
     = [no_properties\<lparr>item_id := Some (Fin 0), imagem := Some (ascii ''http://host/a.png'')\<rparr>] \<and>
   preload_item (Some (10, OnLoad (Encoded [])))
     (no_properties\<lparr>item_id := Some (Fin 0), imagem := Some (ascii ''http://host/a.png'')\<rparr>) = [] \<and>
   didDrawCell accepts_all [no_properties\<lparr>item_id := Some (Fin 0), imagem := Some (ascii ''http://host/a.png'')\<rparr>]
     (Map.empty(Fin 0 \<mapsto> Some (ascii ''data:'')))
     \<lparr>cell_section = Body, column_index = 0, row_index = 0, cell_x = 15, cell_y = 70,
      cell_width = 22, cell_height = 22\<rparr> = Inr []"
proof -
  let ?it = "no_properties\<lparr>item_id := Some (Fin 0), imagem := Some (ascii ''http://host/a.png'')\<rparr>"
  let ?d = "\<lparr>cell_section = Body, column_index = 0, row_index = 0, cell_x = 15, cell_y = 70,
      cell_width = 22, cell_height = 22\<rparr>"
  have v: "validItems (Some [Item ?it]) = [?it]"
    by (simp add: validItems_def)
  have i: "0 < length (validItems (Some [Item ?it]))"
    and f: "\<not> truthy (num_val (item_id (validItems (Some [Item ?it]) ! 0)))"
    by (simp_all add: v)
  note th = falsy_id_has_no_thumbnail [OF i f, where e = "\<lparr>item_image = (\<lambda>i. None), logo_image = None,
      drawn_cells = [], lastAutoTable = None, pageHeight = 297\<rparr>" and ev = "Some (10, OnLoad (Encoded []))"]
  from th have "preload_item (Some (10, OnLoad (Encoded []))) (validItems (Some [Item ?it]) ! 0) = []"
    by blast
  then have a: "preload_item (Some (10, OnLoad (Encoded []))) ?it = []"
    by (simp add: v)
  have "row_index ?d = int 0" by simp
  with th have "didDrawCell accepts_all (validItems (Some [Item ?it])) (Map.empty(Fin 0 \<mapsto> Some (ascii ''data:''))) ?d = Inr []"
    by blast
  then have b: "didDrawCell accepts_all [?it] (Map.empty(Fin 0 \<mapsto> Some (ascii ''data:''))) ?d = Inr []"
    by (simp add: v)
  show ?thesis using v a b by blast
qed

end
